theory Spec2Isabelle
  imports Complex_Main "HOL-Library.AList"
begin

section \<open>Python values used by the face service\<close>

text \<open>
  The service under verification is \<^verbatim>\<open>src/face-service/main.py\<close>. Python's \<^verbatim>\<open>int\<close> is
  modelled by \<^typ>\<open>int\<close>, \<^verbatim>\<open>str\<close> by \<^typ>\<open>string\<close>, \<^verbatim>\<open>datetime\<close> by the number of
  microseconds since some epoch (\<^typ>\<open>int\<close>; a \<^verbatim>\<open>timedelta\<close> is a difference of two such
  numbers), and \<^verbatim>\<open>Optional[T]\<close> by \<^typ>\<open>'a option\<close>.
\<close>

subsection \<open>Formatting integers (f-strings)\<close>

fun show_nat :: "nat \<Rightarrow> string" where
  "show_nat n =
     (if n < 10 then [''0123456789'' ! n]
      else show_nat (n div 10) @ [''0123456789'' ! (n mod 10)])"

declare show_nat.simps [simp del]

definition show_int :: "int \<Rightarrow> string" where
  "show_int i = (if i < 0 then ''-'' @ show_nat (nat (- i)) else show_nat (nat i))"

subsection \<open>Double-precision arithmetic\<close>

text \<open>
  \<^verbatim>\<open>update_progress\<close> computes \<^verbatim>\<open>int((current / job.total_images) * 100)\<close>. Both
  operands of \<^verbatim>\<open>/\<close> are Python ints, so \<^verbatim>\<open>/\<close> is true division: the result is the
  IEEE-754 binary64 number nearest to the exact quotient (ties to even). The product with
  \<^verbatim>\<open>100\<close> is a binary64 multiplication, again correctly rounded, and \<^verbatim>\<open>int\<close> truncates
  towards zero. A finite binary64 number is modelled by the rational it denotes, and each
  operation by the exact operation followed by \<open>round_double\<close>.

  The exponent range is not modelled (no overflow, no subnormals). The batch processor
  calls \<^verbatim>\<open>update_progress\<close> with \<open>0 \<le> current \<le> total_images\<close>, where \<open>total_images\<close> is
  the length of a list and so below \<open>2 ^ 63\<close>; there the quotient lies between 0 and 1, its
  product with 100 between 0 and 100, and the model computes what the source computes.
  Outside this range the source can raise where the model returns a value: \<^verbatim>\<open>/\<close> raises
  \<^verbatim>\<open>OverflowError\<close> when the quotient exceeds the binary64 range, \<^verbatim>\<open>int\<close> raises it on an
  infinite product, and the f-string of the message raises \<^verbatim>\<open>ValueError\<close> for an int of more
  than 4300 digits. There line 109 or 110 raises after \<^verbatim>\<open>current_image\<close> and
  \<^verbatim>\<open>matches_found\<close> have been written. A statement about the progress or the message that
  \<open>update_progress\<close> sets for an arbitrary \<open>current\<close> therefore carries this range as a
  hypothesis.
\<close>

fun bit_length :: "nat \<Rightarrow> nat" where
  "bit_length n = (if n = 0 then 0 else Suc (bit_length (n div 2)))"

declare bit_length.simps [simp del]

definition pow2 :: "int \<Rightarrow> rat" where
  "pow2 e = (if 0 \<le> e then 2 ^ nat e else 1 / 2 ^ nat (- e))"

definition floor_log2 :: "rat \<Rightarrow> int" where
  \<comment> \<open>for \<open>0 < a\<close>: the \<open>e\<close> with \<open>2 ^ e \<le> a < 2 ^ (e + 1)\<close>\<close>
  "floor_log2 a =
     (let (p, q) = quotient_of a;
          e0 = int (bit_length (nat p)) - int (bit_length (nat q))
      in if pow2 e0 \<le> a then e0 else e0 - 1)"

definition round_half_even :: "rat \<Rightarrow> int" where
  "round_half_even r =
     (let f = \<lfloor>r\<rfloor>; d = r - of_int f
      in if d < 1 / 2 then f
         else if 1 / 2 < d then f + 1
         else if even f then f else f + 1)"

definition round_double :: "rat \<Rightarrow> rat" where
  \<comment> \<open>the nearest number with a 53-bit significand, ties to even\<close>
  "round_double x =
     (if x = 0 then 0
      else let a = \<bar>x\<bar>;
               e = floor_log2 a - 52;
               m = round_half_even (a / pow2 e)
           in sgn x * of_int m * pow2 e)"

definition py_truediv :: "int \<Rightarrow> int \<Rightarrow> rat" where
  \<comment> \<open>\<^verbatim>\<open>a / b\<close> on ints, for \<open>b \<noteq> 0\<close> (the source guards the division by \<open>total_images > 0\<close>)\<close>
  "py_truediv a b = round_double (of_int a / of_int b)"

definition py_float_mul :: "rat \<Rightarrow> rat \<Rightarrow> rat" where
  "py_float_mul x y = round_double (x * y)"

definition py_int_of_float :: "rat \<Rightarrow> int" where
  \<comment> \<open>\<^verbatim>\<open>int(x)\<close> on a float: truncation towards zero\<close>
  "py_int_of_float x = (if 0 \<le> x then \<lfloor>x\<rfloor> else \<lceil>x\<rceil>)"

section \<open>Session store\<close>

text \<open>
  \<^verbatim>\<open>class SessionData\<close> and \<^verbatim>\<open>class SessionStore\<close>. The dict \<^verbatim>\<open>sessions\<close> is iterated by
  \<^verbatim>\<open>cleanup_expired_sessions\<close>, so it is an association list in insertion order, whose keys
  are pairwise distinct (\<open>dict_inv\<close>). \<^verbatim>\<open>d.get(k)\<close> is \<^const>\<open>map_of\<close>, \<^verbatim>\<open>d[k] = v\<close> is
  \<^const>\<open>AList.update\<close> (in place for a present key, appended otherwise) and \<^verbatim>\<open>del d[k]\<close> is
  \<^const>\<open>AList.delete\<close>. Every \<^verbatim>\<open>datetime.now()\<close> of the source is a clock reading passed in
  by the caller. The encoding type \<open>'e\<close> stands for \<^verbatim>\<open>np.ndarray\<close>.
\<close>

record 'e session_data =
  encoding :: 'e
  created_at :: int
  last_accessed :: int

record 'e session_store =
  sessions :: "(string \<times> 'e session_data) list"
  session_ttl :: int

definition dict_inv :: "(string \<times> 'v) list \<Rightarrow> bool" where
  "dict_inv d = distinct (map fst d)"

definition hours :: "int \<Rightarrow> int" where
  \<comment> \<open>\<^verbatim>\<open>timedelta(hours=h)\<close> in microseconds\<close>
  "hours h = h * 3600 * 1000000"

definition SessionData_init :: "'e \<Rightarrow> int \<Rightarrow> int \<Rightarrow> 'e session_data" where
  \<comment> \<open>the constructor reads the clock twice\<close>
  "SessionData_init enc now1 now2 = \<lparr>encoding = enc, created_at = now1, last_accessed = now2\<rparr>"

definition SessionStore_init :: "'e session_store" where
  "SessionStore_init = \<lparr>sessions = [], session_ttl = hours 24\<rparr>"

definition store :: "'e session_store \<Rightarrow> string \<Rightarrow> 'e \<Rightarrow> int \<Rightarrow> int \<Rightarrow> 'e session_store" where
  "store s session_id enc now1 now2 =
     s\<lparr>sessions := AList.update session_id (SessionData_init enc now1 now2) (sessions s)\<rparr>"

definition retrieve :: "'e session_store \<Rightarrow> string \<Rightarrow> int \<Rightarrow> 'e option \<times> 'e session_store" where
  "retrieve s session_id now =
     (case map_of (sessions s) session_id of
        Some session_data \<Rightarrow>
          (Some (encoding session_data),
           s\<lparr>sessions :=
               AList.update session_id (session_data\<lparr>last_accessed := now\<rparr>) (sessions s)\<rparr>)
      | None \<Rightarrow> (None, s))"

definition delete :: "'e session_store \<Rightarrow> string \<Rightarrow> bool \<times> 'e session_store" where
  "delete s session_id =
     (if session_id \<in> fst ` set (sessions s)
      then (True, s\<lparr>sessions := AList.delete session_id (sessions s)\<rparr>)
      else (False, s))"

definition is_expired :: "'e session_store \<Rightarrow> int \<Rightarrow> 'e session_data \<Rightarrow> bool" where
  \<comment> \<open>\<^verbatim>\<open>now - session_data.last_accessed > self.session_ttl\<close>\<close>
  "is_expired s now session_data \<longleftrightarrow> now - last_accessed session_data > session_ttl s"

definition expired_sessions :: "'e session_store \<Rightarrow> int \<Rightarrow> string list" where
  \<comment> \<open>the first loop of \<^verbatim>\<open>cleanup_expired_sessions\<close>\<close>
  "expired_sessions s now = map fst (filter (\<lambda>(session_id, session_data). is_expired s now session_data) (sessions s))"

definition cleanup_expired_sessions :: "'e session_store \<Rightarrow> int \<Rightarrow> int \<times> 'e session_store" where
  \<comment> \<open>the second loop deletes the collected ids one by one; each is a key of the dict, so
      \<^verbatim>\<open>del\<close> cannot raise\<close>
  "cleanup_expired_sessions s now =
     (let expired = expired_sessions s now
      in (int (length expired),
          s\<lparr>sessions := foldl (\<lambda>d session_id. AList.delete session_id d) (sessions s) expired\<rparr>))"

section \<open>Job store\<close>

text \<open>
  \<^verbatim>\<open>class MatchResult\<close>, \<^verbatim>\<open>class JobStatus\<close> and \<^verbatim>\<open>class JobStore\<close>. The dict \<^verbatim>\<open>jobs\<close> is only
  read and written by key, so it is a map. A distance is a finite binary64 number, modelled
  by the real it denotes; the comparisons \<^verbatim>\<open><=\<close> and \<^verbatim>\<open><\<close> on such numbers are exact.
  The field \<^verbatim>\<open>created_at\<close> of a job is \<open>job_created_at\<close> here, since a session has a field
  of that name too.
\<close>

record match_result =
  index :: int
  distance :: real

record job_status =
  job_id :: string
  status :: string
  progress :: int
  current_image :: int
  total_images :: int
  matches_found :: int
  matches :: "match_result list"
  message :: string
  error :: "string option"
  job_created_at :: int

type_synonym job_store = "string \<rightharpoonup> job_status"

definition JobStatus_init :: "string \<Rightarrow> int \<Rightarrow> int \<Rightarrow> job_status" where
  "JobStatus_init jid total_imgs now =
     \<lparr>job_id = jid, status = ''processing'', progress = 0, current_image = 0,
      total_images = total_imgs, matches_found = 0, matches = [],
      message = ''Starting processing...'', error = None, job_created_at = now\<rparr>"

definition JobStore_init :: job_store where
  "JobStore_init = Map.empty"

definition create_job :: "job_store \<Rightarrow> string \<Rightarrow> int \<Rightarrow> int \<Rightarrow> string \<times> job_store" where
  \<comment> \<open>\<open>uuid\<close> is the value of \<^verbatim>\<open>str(uuid.uuid4())\<close>\<close>
  "create_job js uuid total_imgs now = (uuid, js(uuid \<mapsto> JobStatus_init uuid total_imgs now))"

definition get_job :: "job_store \<Rightarrow> string \<Rightarrow> job_status option" where
  "get_job js jid = js jid"

definition progress_percent :: "int \<Rightarrow> int \<Rightarrow> int" where
  \<comment> \<open>\<^verbatim>\<open>int((current / job.total_images) * 100) if job.total_images > 0 else 0\<close>\<close>
  "progress_percent current total_imgs =
     (if total_imgs > 0 then py_int_of_float (py_float_mul (py_truediv current total_imgs) 100) else 0)"

definition update_progress :: "job_store \<Rightarrow> string \<Rightarrow> int \<Rightarrow> int \<Rightarrow> job_store" where
  "update_progress js jid current found =
     (case js jid of
        None \<Rightarrow> js
      | Some job \<Rightarrow>
          js(jid \<mapsto> job
            \<lparr>current_image := current,
             matches_found := found,
             progress := progress_percent current (total_images job),
             message := ''Processing image '' @ show_int current @ '' of ''
                        @ show_int (total_images job)\<rparr>))"

definition complete_job :: "job_store \<Rightarrow> string \<Rightarrow> match_result list \<Rightarrow> job_store" where
  "complete_job js jid ms =
     (case js jid of
        None \<Rightarrow> js
      | Some job \<Rightarrow>
          js(jid \<mapsto> job
            \<lparr>status := ''completed'',
             progress := 100,
             matches := ms,
             matches_found := int (length ms),
             message := ''Completed! Found '' @ show_int (int (length ms)) @ '' matches''\<rparr>))"

definition fail_job :: "job_store \<Rightarrow> string \<Rightarrow> string \<Rightarrow> job_store" where
  "fail_job js jid err =
     (case js jid of
        None \<Rightarrow> js
      | Some job \<Rightarrow>
          js(jid \<mapsto> job\<lparr>status := ''failed'', error := Some err, message := ''Failed: '' @ err\<rparr>))"

definition delete_job :: "job_store \<Rightarrow> string \<Rightarrow> bool \<times> job_store" where
  "delete_job js jid = (if jid \<in> dom js then (True, js(jid := None)) else (False, js))"

section \<open>Batch processor\<close>

text \<open>
  \<^verbatim>\<open>process_batch_background\<close>. The image and face-recognition libraries are not part of the
  repository; they are a parameter. Each library call either returns a value or raises an
  \<^verbatim>\<open>Exception\<close> (\<open>None\<close>):
  \<^item> \<open>load_image\<close>: \<^verbatim>\<open>base64.b64decode\<close>, \<^verbatim>\<open>Image.open\<close>, \<^verbatim>\<open>convert('RGB')\<close>, \<^verbatim>\<open>np.array\<close>;
  \<^item> \<open>face_locations\<close>, \<open>face_encodings\<close>: the calls of the same name;
  \<^item> \<open>face_distance\<close>: \<^verbatim>\<open>face_recognition.face_distance([base_encoding], face_encoding)[0]\<close>.
\<close>

record ('i, 'l, 'e) face_lib =
  load_image :: "string \<Rightarrow> 'i option"
  face_locations :: "'i \<Rightarrow> 'l list option"
  face_encodings :: "'i \<Rightarrow> 'l list \<Rightarrow> 'e list option"
  face_distance :: "'e \<Rightarrow> 'e \<Rightarrow> real option"

text \<open>
  \<^verbatim>\<open>best_distance\<close> starts as \<^verbatim>\<open>float('inf')\<close>, which is no real number. The final test
  \<^verbatim>\<open>best_distance <= 0.7\<close> is false for it; in \<open>match_image\<close> it is a case distinction.
\<close>

datatype best = PosInf | Dist real

fun real_less_best :: "real \<Rightarrow> best \<Rightarrow> bool" where
  "real_less_best d PosInf = True"
| "real_less_best d (Dist b) = (d < b)"

definition match_threshold :: real where
  \<comment> \<open>the literal \<^verbatim>\<open>0.7\<close>: it denotes the binary64 number nearest to 7/10, which lies below
      7/10 with no binary64 number in between, so on binary64 distances \<^verbatim>\<open>d <= 0.7\<close> holds
      exactly when \<open>d \<le> 7/10\<close>\<close>
  "match_threshold = 0.7"

fun best_of_faces :: "('i, 'l, 'e) face_lib \<Rightarrow> 'e \<Rightarrow> 'e list \<Rightarrow> best \<Rightarrow> best option" where
  \<comment> \<open>the loop over \<^verbatim>\<open>face_encodings\<close>; \<open>None\<close> when \<^verbatim>\<open>face_distance\<close> raises\<close>
  "best_of_faces orc base_encoding [] best_distance = Some best_distance"
| "best_of_faces orc base_encoding (face_encoding # rest) best_distance =
     (case face_distance orc base_encoding face_encoding of
        None \<Rightarrow> None
      | Some d \<Rightarrow>
          best_of_faces orc base_encoding rest
            (if d \<le> match_threshold \<and> real_less_best d best_distance then Dist d
             else best_distance))"

definition match_image :: "('i, 'l, 'e) face_lib \<Rightarrow> 'e \<Rightarrow> string \<Rightarrow> real option option" where
  \<comment> \<open>lines 246 to 270 for one image: \<open>None\<close> when a call raised, \<open>Some None\<close> when the
      image is no match, \<open>Some (Some d)\<close> when it is appended with distance \<open>d\<close>\<close>
  "match_image orc base_encoding image_base64 =
     (case load_image orc image_base64 of
        None \<Rightarrow> None
      | Some image_array \<Rightarrow>
          (case face_locations orc image_array of
             None \<Rightarrow> None
           | Some locs \<Rightarrow>
               if length locs > 0 then
                 (case face_encodings orc image_array locs of
                    None \<Rightarrow> None
                  | Some encs \<Rightarrow>
                      (case best_of_faces orc base_encoding encs PosInf of
                         None \<Rightarrow> None
                       | Some PosInf \<Rightarrow> Some None
                       | Some (Dist b) \<Rightarrow> if b \<le> match_threshold then Some (Some b) else Some None))
               else Some None))"

definition process_one ::
  "('i, 'l, 'e) face_lib \<Rightarrow> string \<Rightarrow> 'e \<Rightarrow> nat \<Rightarrow> string
     \<Rightarrow> match_result list \<times> job_store \<Rightarrow> match_result list \<times> job_store" where
  \<comment> \<open>one iteration of the loop over \<^verbatim>\<open>enumerate(images)\<close>: the \<^verbatim>\<open>try\<close> body, which ends with
      \<^verbatim>\<open>update_progress\<close>, and the \<^verbatim>\<open>except\<close> branch, which only logs and continues\<close>
  "process_one orc jid base_encoding idx image_base64 st =
     (case st of (ms, js) \<Rightarrow>
        (case match_image orc base_encoding image_base64 of
           None \<Rightarrow> (ms, js)
         | Some r \<Rightarrow>
             (let ms' = (case r of
                           Some d \<Rightarrow> ms @ [\<lparr>index = int idx, distance = d\<rparr>]
                         | None \<Rightarrow> ms)
              in (ms', update_progress js jid (int idx + 1) (int (length ms'))))))"

fun process_images ::
  "('i, 'l, 'e) face_lib \<Rightarrow> string \<Rightarrow> 'e \<Rightarrow> nat \<Rightarrow> string list
     \<Rightarrow> match_result list \<times> job_store \<Rightarrow> match_result list \<times> job_store" where
  "process_images orc jid base_encoding idx [] st = st"
| "process_images orc jid base_encoding idx (image_base64 # images) st =
     process_images orc jid base_encoding (Suc idx) images
       (process_one orc jid base_encoding idx image_base64 st)"

record 'e system =
  session_store :: "'e session_store"
  job_store :: job_store

definition process_batch_background ::
  "('i, 'l, 'e) face_lib \<Rightarrow> int \<Rightarrow> string \<Rightarrow> string \<Rightarrow> string list \<Rightarrow> 'e system \<Rightarrow> 'e system" where
  \<comment> \<open>\<open>now\<close> is the clock reading inside \<^verbatim>\<open>retrieve\<close>. No call outside the inner \<^verbatim>\<open>try\<close> can
      raise an \<^verbatim>\<open>Exception\<close>, so the outer \<^verbatim>\<open>except\<close> branch is never taken.\<close>
  "process_batch_background orc now jid session_id images sys =
     (case retrieve (session_store sys) session_id now of
        (None, ss) \<Rightarrow>
          \<lparr>session_store = ss, job_store = fail_job (job_store sys) jid ''Session not found''\<rparr>
      | (Some base_encoding, ss) \<Rightarrow>
          (case process_images orc jid base_encoding 0 images ([], job_store sys) of
             (ms, js) \<Rightarrow> \<lparr>session_store = ss, job_store = complete_job js jid ms\<rparr>))"

section \<open>Job status endpoint\<close>

record job_status_response =
  r_job_id :: string
  r_status :: string
  r_progress :: int
  r_current_image :: int
  r_total_images :: int
  r_matches_found :: int
  r_message :: string
  r_matches :: "match_result list option"
  r_error :: "string option"

datatype http_error = HTTPException int string

definition get_job_status :: "job_store \<Rightarrow> string \<Rightarrow> http_error + job_status_response" where
  "get_job_status js jid =
     (case get_job js jid of
        None \<Rightarrow> Inl (HTTPException 404 ''Job not found'')
      | Some job \<Rightarrow>
          (let matches_data =
                 (if status job = ''completed'' \<and> matches job \<noteq> []
                  then Some (map (\<lambda>m. \<lparr>index = index m, distance = distance m\<rparr>) (matches job))
                  else None)
           in Inr \<lparr>r_job_id = job_id job, r_status = status job, r_progress = progress job,
                   r_current_image = current_image job, r_total_images = total_images job,
                   r_matches_found = matches_found job, r_message = message job,
                   r_matches = matches_data, r_error = error job\<rparr>))"

section \<open>The calls a batch makes on the job store\<close>

text \<open>
  The batch processor changes the job store only through \<^verbatim>\<open>update_progress\<close>, \<^verbatim>\<open>complete_job\<close>
  and \<^verbatim>\<open>fail_job\<close>. \<open>process_batch_calls\<close> follows the same control flow as
  \<open>process_batch_background\<close> and lists these calls in the order they are made.
\<close>

datatype job_call =
  UpdateProgress string int int
| CompleteJob string "match_result list"
| FailJob string string

fun apply_call :: "job_store \<Rightarrow> job_call \<Rightarrow> job_store" where
  "apply_call js (UpdateProgress jid current found) = update_progress js jid current found"
| "apply_call js (CompleteJob jid ms) = complete_job js jid ms"
| "apply_call js (FailJob jid err) = fail_job js jid err"

definition process_one_calls ::
  "('i, 'l, 'e) face_lib \<Rightarrow> string \<Rightarrow> 'e \<Rightarrow> nat \<Rightarrow> string
     \<Rightarrow> match_result list \<Rightarrow> match_result list \<times> job_call list" where
  "process_one_calls orc jid base_encoding idx image_base64 ms =
     (case match_image orc base_encoding image_base64 of
        None \<Rightarrow> (ms, [])
      | Some r \<Rightarrow>
          (let ms' = (case r of
                        Some d \<Rightarrow> ms @ [\<lparr>index = int idx, distance = d\<rparr>]
                      | None \<Rightarrow> ms)
           in (ms', [UpdateProgress jid (int idx + 1) (int (length ms'))])))"

fun process_images_calls ::
  "('i, 'l, 'e) face_lib \<Rightarrow> string \<Rightarrow> 'e \<Rightarrow> nat \<Rightarrow> string list
     \<Rightarrow> match_result list \<Rightarrow> match_result list \<times> job_call list" where
  "process_images_calls orc jid base_encoding idx [] ms = (ms, [])"
| "process_images_calls orc jid base_encoding idx (image_base64 # images) ms =
     (case process_one_calls orc jid base_encoding idx image_base64 ms of
        (ms1, calls1) \<Rightarrow>
          (case process_images_calls orc jid base_encoding (Suc idx) images ms1 of
             (ms2, calls2) \<Rightarrow> (ms2, calls1 @ calls2)))"

definition process_batch_calls ::
  "('i, 'l, 'e) face_lib \<Rightarrow> int \<Rightarrow> string \<Rightarrow> string \<Rightarrow> string list \<Rightarrow> 'e system \<Rightarrow> job_call list" where
  "process_batch_calls orc now jid session_id images sys =
     (case retrieve (session_store sys) session_id now of
        (None, ss) \<Rightarrow> [FailJob jid ''Session not found'']
      | (Some base_encoding, ss) \<Rightarrow>
          (case process_images_calls orc jid base_encoding 0 images [] of
             (ms, calls) \<Rightarrow> calls @ [CompleteJob jid ms]))"

section \<open>A batch running while other requests change the session store\<close>

text \<open>
  The batch runs as a background task while request handlers and the cleanup thread keep
  using the session store. \<open>env k\<close> is what they do to the session store after the batch
  has read the reference encoding and before it handles image \<open>k\<close> (for
  \<open>k = length images\<close>: before \<^verbatim>\<open>complete_job\<close>); for a \<^verbatim>\<open>DELETE /face/session\<close> request it
  is \<open>\<lambda>s. snd (delete s session_id)\<close>.
\<close>

fun process_images_env ::
  "('i, 'l, 'e) face_lib \<Rightarrow> string \<Rightarrow> 'e \<Rightarrow> (nat \<Rightarrow> 'e session_store \<Rightarrow> 'e session_store)
     \<Rightarrow> nat \<Rightarrow> string list \<Rightarrow> match_result list \<times> 'e system \<Rightarrow> match_result list \<times> 'e system" where
  "process_images_env orc jid base_encoding env idx [] st =
     (case st of (ms, sys) \<Rightarrow> (ms, sys\<lparr>session_store := env idx (session_store sys)\<rparr>))"
| "process_images_env orc jid base_encoding env idx (image_base64 # images) st =
     (case st of (ms, sys) \<Rightarrow>
        (case process_one orc jid base_encoding idx image_base64 (ms, job_store sys) of
           (ms', js') \<Rightarrow>
             process_images_env orc jid base_encoding env (Suc idx) images
               (ms', \<lparr>session_store = env idx (session_store sys), job_store = js'\<rparr>)))"

definition process_batch_interleaved ::
  "('i, 'l, 'e) face_lib \<Rightarrow> int \<Rightarrow> string \<Rightarrow> string \<Rightarrow> string list
     \<Rightarrow> (nat \<Rightarrow> 'e session_store \<Rightarrow> 'e session_store) \<Rightarrow> 'e system \<Rightarrow> 'e system" where
  "process_batch_interleaved orc now jid session_id images env sys =
     (case retrieve (session_store sys) session_id now of
        (None, ss) \<Rightarrow>
          \<lparr>session_store = ss, job_store = fail_job (job_store sys) jid ''Session not found''\<rparr>
      | (Some base_encoding, ss) \<Rightarrow>
          (case process_images_env orc jid base_encoding env 0 images
                  ([], \<lparr>session_store = ss, job_store = job_store sys\<rparr>) of
             (ms, sys') \<Rightarrow> sys'\<lparr>job_store := complete_job (job_store sys') jid ms\<rparr>))"

section \<open>Notions used to state the properties\<close>

definition image_raised :: "('i, 'l, 'e) face_lib \<Rightarrow> 'e \<Rightarrow> string \<Rightarrow> bool" where
  "image_raised orc base_encoding image_base64 \<longleftrightarrow>
     match_image orc base_encoding image_base64 = None"

fun matches_of :: "('i, 'l, 'e) face_lib \<Rightarrow> 'e \<Rightarrow> nat \<Rightarrow> string list \<Rightarrow> match_result list" where
  \<comment> \<open>the accepted images of a list whose first image has position \<open>idx\<close>\<close>
  "matches_of orc base_encoding idx [] = []"
| "matches_of orc base_encoding idx (image_base64 # images) =
     (case match_image orc base_encoding image_base64 of
        Some (Some d) \<Rightarrow> [\<lparr>index = int idx, distance = d\<rparr>]
      | _ \<Rightarrow> [])
     @ matches_of orc base_encoding (Suc idx) images"

section \<open>A small scenario\<close>

text \<open>
  A library for concrete runs: an encoding is a number, the distance of two encodings is
  the absolute difference. Image \<open>''A''\<close> shows one face (0.5), \<open>''C''\<close> one face (0.9),
  \<open>''M''\<close> three faces (0.9, 0.5, 0.75), \<open>''bad''\<close> cannot be decoded, every other image
  shows no face.
\<close>

definition ex_faces :: "string \<Rightarrow> real list" where
  "ex_faces i =
     (if i = ''A'' then [0.5]
      else if i = ''C'' then [0.9]
      else if i = ''M'' then [0.9, 0.5, 0.75]
      else [])"

definition ex_lib :: "(string, nat, real) face_lib" where
  "ex_lib =
     \<lparr>load_image = (\<lambda>s. if s = ''bad'' then None else Some s),
      face_locations = (\<lambda>i. Some [0..<length (ex_faces i)]),
      face_encodings = (\<lambda>i locs. Some (map (\<lambda>l. ex_faces i ! l) locs)),
      face_distance = (\<lambda>a b. Some \<bar>a - b\<bar>)\<rparr>"

definition ex_job :: job_status where
  "ex_job = JobStatus_init ''j1'' 3 0"

definition ex_jobs :: job_store where
  "ex_jobs = snd (create_job JobStore_init ''j1'' 3 0)"

definition ex_sessions :: "real session_store" where
  "ex_sessions = store SessionStore_init ''s1'' 0 0 0"

definition ex_system :: "real system" where
  "ex_system = \<lparr>session_store = ex_sessions, job_store = ex_jobs\<rparr>"

text \<open>
  Two sessions: \<open>''s1''\<close> registered at time 0 and \<open>''s2''\<close> registered 50000 seconds later.
\<close>

definition ex_sessions2 :: "real session_store" where
  "ex_sessions2 = store (store SessionStore_init ''s1'' 0 0 0) ''s2'' 1 50000000000 50000000000"

section \<open>Properties of the job store\<close>

lemma match_result_copy: "map (\<lambda>m. \<lparr>index = index m, distance = distance m\<rparr>) ms = ms"
  by (induction ms) simp_all

lemma ex_jobs_j1: "ex_jobs ''j1'' = Some ex_job"
  by (simp add: ex_jobs_def ex_job_def create_job_def)

text \<open>
  Claim C2, as the code has it. \<open>update_progress\<close> does nothing for an absent job id. For
  an existing job it never looks at the status: whether the job is processing, completed
  or failed, a call with \<open>0 \<le> current \<le> total_images\<close> (and \<open>total_images\<close> a list length,
  below \<open>2 ^ 63\<close>) sets the current image, the number of matches found, the progress and the
  message, and leaves the status, the matches, the error, the number of images, the id and
  the creation time unchanged.
\<close>

theorem update_progress_effect:
  "(js jid = None \<longrightarrow> update_progress js jid c f = js)
   \<and> (\<forall>job. js jid = Some job \<and> 0 \<le> c \<and> c \<le> total_images job \<and> total_images job < 2 ^ 63 \<longrightarrow>
        (\<exists>job'. update_progress js jid c f jid = Some job'
           \<and> current_image job' = c \<and> matches_found job' = f
           \<and> progress job' = progress_percent c (total_images job)
           \<and> message job' = ''Processing image '' @ show_int c @ '' of '' @ show_int (total_images job)
           \<and> status job' = status job \<and> matches job' = matches job \<and> error job' = error job
           \<and> total_images job' = total_images job \<and> job_id job' = job_id job
           \<and> job_created_at job' = job_created_at job))"
  by (simp add: update_progress_def)

theorem update_progress_effect_witness:
  "ex_jobs ''zz'' = None \<and> update_progress ex_jobs ''zz'' 1 0 = ex_jobs
   \<and> complete_job ex_jobs ''j1'' [] ''j1'' =
        Some (ex_job\<lparr>status := ''completed'', progress := 100, matches := [],
                     matches_found := 0, message := ''Completed! Found 0 matches''\<rparr>)
   \<and> total_images (ex_job\<lparr>status := ''completed'', progress := 100, matches := [],
                     matches_found := 0, message := ''Completed! Found 0 matches''\<rparr>) = 3
   \<and> (0::int) \<le> 1 \<and> (1::int) \<le> 3 \<and> (3::int) < 2 ^ 63
   \<and> (\<exists>job'. update_progress (complete_job ex_jobs ''j1'' []) ''j1'' 1 0 ''j1'' = Some job'
          \<and> current_image job' = 1 \<and> status job' = ''completed''
          \<and> message job' = ''Processing image 1 of 3'')"
proof -
  have a: "ex_jobs ''zz'' = None"
    by (simp add: ex_jobs_def create_job_def JobStore_init_def)
  have h: "complete_job ex_jobs ''j1'' [] ''j1'' =
        Some (ex_job\<lparr>status := ''completed'', progress := 100, matches := [],
                     matches_found := 0, message := ''Completed! Found 0 matches''\<rparr>)"
    by (simp add: complete_job_def ex_jobs_j1 show_int_def show_nat.simps)
  have t: "total_images (ex_job\<lparr>status := ''completed'', progress := 100, matches := [],
                     matches_found := 0, message := ''Completed! Found 0 matches''\<rparr>) = 3"
    by (simp add: ex_job_def JobStatus_init_def)
  from update_progress_effect [of ex_jobs "''zz''" 1 0] a
  have n: "update_progress ex_jobs ''zz'' 1 0 = ex_jobs" by simp
  from update_progress_effect [of "complete_job ex_jobs ''j1'' []" "''j1''" 1 0] h t
  have "\<exists>job'. update_progress (complete_job ex_jobs ''j1'' []) ''j1'' 1 0 ''j1'' = Some job'
          \<and> current_image job' = 1 \<and> status job' = ''completed''
          \<and> message job' = ''Processing image 1 of 3''"
    by (auto simp add: show_int_def show_nat.simps)
  with a h t n show ?thesis by simp
qed

theorem update_progress_terminal_counterexample:
  "map_option status (complete_job ex_jobs ''j1'' [] ''j1'') = Some ''completed''
   \<and> map_option current_image (complete_job ex_jobs ''j1'' [] ''j1'') = Some 0
   \<and> map_option message (complete_job ex_jobs ''j1'' [] ''j1'') = Some ''Completed! Found 0 matches''
   \<and> map_option current_image (update_progress (complete_job ex_jobs ''j1'' []) ''j1'' 1 0 ''j1'') = Some 1
   \<and> map_option message (update_progress (complete_job ex_jobs ''j1'' []) ''j1'' 1 0 ''j1'')
        = Some ''Processing image 1 of 3''"
  by (simp add: update_progress_def complete_job_def ex_jobs_j1 ex_job_def JobStatus_init_def
      show_int_def show_nat.simps)

text \<open>
  Claim C1, as the code has it. \<open>complete_job\<close> and \<open>fail_job\<close> do nothing only for an absent
  job id. On an existing job they never look at the status: \<open>complete_job\<close> sets the status
  to completed, the progress to 100, the matches, the number of matches found and the
  message (a failed job becomes completed and keeps its error), and \<open>fail_job\<close> sets the
  status to failed, the error and the message. Repeating a call with the same arguments
  leaves the job as the first call set it.
\<close>

theorem terminal_calls_overwrite:
  "complete_job (complete_job js jid ms) jid ms = complete_job js jid ms
   \<and> fail_job (fail_job js jid err) jid err = fail_job js jid err
   \<and> (js jid = None \<longrightarrow> complete_job js jid ms = js \<and> fail_job js jid err = js)
   \<and> (\<forall>job. js jid = Some job \<longrightarrow>
        complete_job js jid ms jid =
          Some (job\<lparr>status := ''completed'', progress := 100, matches := ms,
                    matches_found := int (length ms),
                    message := ''Completed! Found '' @ show_int (int (length ms)) @ '' matches''\<rparr>)
        \<and> fail_job js jid err jid =
          Some (job\<lparr>status := ''failed'', error := Some err, message := ''Failed: '' @ err\<rparr>))"
  by (auto simp add: complete_job_def fail_job_def split: option.splits)

theorem terminal_calls_overwrite_witness:
  "fail_job ex_jobs ''j1'' ''boom'' ''j1'' =
     Some (ex_job\<lparr>status := ''failed'', error := Some ''boom'', message := ''Failed: boom''\<rparr>)
   \<and> complete_job (fail_job ex_jobs ''j1'' ''boom'') ''j1'' [] ''j1'' =
     Some (ex_job\<lparr>status := ''completed'', error := Some ''boom'', progress := 100, matches := [],
                  matches_found := 0, message := ''Completed! Found 0 matches''\<rparr>)
   \<and> ex_jobs ''zz'' = None \<and> complete_job ex_jobs ''zz'' [] = ex_jobs"
proof -
  have a: "ex_jobs ''zz'' = None"
    by (simp add: ex_jobs_def create_job_def JobStore_init_def)
  have h: "fail_job ex_jobs ''j1'' ''boom'' ''j1'' =
     Some (ex_job\<lparr>status := ''failed'', error := Some ''boom'', message := ''Failed: boom''\<rparr>)"
    by (simp add: fail_job_def ex_jobs_j1)
  from terminal_calls_overwrite [of "fail_job ex_jobs ''j1'' ''boom''" "''j1''" "[]" "''x''"] h
  have "complete_job (fail_job ex_jobs ''j1'' ''boom'') ''j1'' [] ''j1'' =
     Some (ex_job\<lparr>status := ''completed'', error := Some ''boom'', progress := 100, matches := [],
                  matches_found := 0, message := ''Completed! Found 0 matches''\<rparr>)"
    by (simp add: show_int_def show_nat.simps ex_job_def JobStatus_init_def)
  moreover
  from terminal_calls_overwrite [of ex_jobs "''zz''" "[]" "''x''"] a
  have "complete_job ex_jobs ''zz'' [] = ex_jobs" by simp
  ultimately show ?thesis using a h by simp
qed

theorem complete_after_fail_counterexample:
  "map_option status (fail_job ex_jobs ''j1'' ''boom'' ''j1'') = Some ''failed''
   \<and> map_option status (complete_job (fail_job ex_jobs ''j1'' ''boom'') ''j1'' [] ''j1'')
        = Some ''completed''
   \<and> map_option message (fail_job ex_jobs ''j1'' ''boom'' ''j1'') = Some ''Failed: boom''
   \<and> map_option message (complete_job (fail_job ex_jobs ''j1'' ''boom'') ''j1'' [] ''j1'')
        = Some ''Completed! Found 0 matches''"
  by (simp add: fail_job_def complete_job_def ex_jobs_j1 ex_job_def JobStatus_init_def
      show_int_def show_nat.simps)

text \<open>
  Claim C9. For an existing job, \<open>fail_job\<close> sets the status to failed, the error and the
  message, and leaves the current image, the progress, the matches, the number of matches
  found, the number of images and the creation time as they were: a failed job keeps the
  partial progress recorded before the failure.
\<close>

theorem fail_job_frame:
  assumes "js jid = Some job"
  shows "\<exists>job'. fail_job js jid err jid = Some job'
           \<and> status job' = ''failed'' \<and> error job' = Some err \<and> message job' = ''Failed: '' @ err
           \<and> current_image job' = current_image job \<and> progress job' = progress job
           \<and> matches job' = matches job \<and> matches_found job' = matches_found job
           \<and> total_images job' = total_images job \<and> job_created_at job' = job_created_at job
           \<and> job_id job' = job_id job"
  using assms by (simp add: fail_job_def)

theorem fail_job_frame_witness:
  "update_progress ex_jobs ''j1'' 2 1 ''j1'' =
     Some (ex_job\<lparr>current_image := 2, matches_found := 1,
                  progress := progress_percent 2 3, message := ''Processing image 2 of 3''\<rparr>)
   \<and> (\<exists>job'. fail_job (update_progress ex_jobs ''j1'' 2 1) ''j1'' ''boom'' ''j1'' = Some job'
           \<and> status job' = ''failed'' \<and> error job' = Some ''boom''
           \<and> current_image job' = 2 \<and> matches_found job' = 1 \<and> total_images job' = 3)"
proof -
  have h: "update_progress ex_jobs ''j1'' 2 1 ''j1'' =
     Some (ex_job\<lparr>current_image := 2, matches_found := 1,
                  progress := progress_percent 2 3, message := ''Processing image 2 of 3''\<rparr>)"
    by (simp add: update_progress_def ex_jobs_j1 ex_job_def JobStatus_init_def
        show_int_def show_nat.simps)
  from fail_job_frame [of "update_progress ex_jobs ''j1'' 2 1" "''j1''" _ "''boom''", OF h] h
  show ?thesis
    by (auto simp add: ex_job_def JobStatus_init_def)
qed

section \<open>Properties of the job status endpoint\<close>

text \<open>
  Claim C10. The response of the job status endpoint carries a list of matches exactly when
  the job is completed and its list of matches is not empty, and then it is that list. For
  a job that is processing or failed, and for a completed job without matches, the field is
  absent; it is never an empty list.
\<close>

theorem get_job_status_matches:
  assumes "js jid = Some job"
  shows "\<exists>r. get_job_status js jid = Inr r
           \<and> (r_matches r \<noteq> None \<longleftrightarrow> status job = ''completed'' \<and> matches job \<noteq> [])
           \<and> (r_matches r \<noteq> None \<longrightarrow> r_matches r = Some (matches job))
           \<and> r_matches r \<noteq> Some []"
  using assms by (simp add: get_job_status_def get_job_def match_result_copy)

theorem get_job_status_matches_witness:
  "complete_job ex_jobs ''j1'' [] ''j1'' =
     Some (ex_job\<lparr>status := ''completed'', progress := 100, matches := [],
                  matches_found := 0, message := ''Completed! Found 0 matches''\<rparr>)
   \<and> (\<exists>r. get_job_status (complete_job ex_jobs ''j1'' []) ''j1'' = Inr r \<and> r_matches r = None)"
proof -
  have h: "complete_job ex_jobs ''j1'' [] ''j1'' =
     Some (ex_job\<lparr>status := ''completed'', progress := 100, matches := [],
                  matches_found := 0, message := ''Completed! Found 0 matches''\<rparr>)"
    by (simp add: complete_job_def ex_jobs_j1 ex_job_def JobStatus_init_def
        show_int_def show_nat.simps)
  from get_job_status_matches [of "complete_job ex_jobs ''j1'' []" "''j1''", OF h] h
  show ?thesis
    by (auto simp add: ex_job_def JobStatus_init_def)
qed

section \<open>Properties of the match decision for one image\<close>

lemma best_of_faces_inv:
  assumes "map (face_distance orc base) encs = map Some ds"
    and "b = PosInf \<or> (\<exists>x. b = Dist x \<and> x \<le> match_threshold)"
  shows "\<exists>r. best_of_faces orc base encs b = Some r
           \<and> (r = PosInf \<longleftrightarrow> b = PosInf \<and> (\<forall>d \<in> set ds. \<not> d \<le> match_threshold))
           \<and> (\<forall>x. r = Dist x \<longrightarrow>
                 x \<le> match_threshold \<and> (x \<in> set ds \<or> b = Dist x)
                 \<and> (\<forall>d \<in> set ds. x \<le> d) \<and> (\<forall>y. b = Dist y \<longrightarrow> x \<le> y))"
  using assms
proof (induction encs arbitrary: ds b)
  case Nil
  then show ?case by auto
next
  case (Cons enc encs)
  from Cons.prems(1) obtain d ds' where ds: "ds = d # ds'"
    and d: "face_distance orc base enc = Some d"
    and rest: "map (face_distance orc base) encs = map Some ds'"
    by (cases ds) auto
  let ?b = "if d \<le> match_threshold \<and> real_less_best d b then Dist d else b"
  have inv: "?b = PosInf \<or> (\<exists>x. ?b = Dist x \<and> x \<le> match_threshold)"
    using Cons.prems(2) by auto
  from Cons.IH [OF rest inv] obtain r where
    r: "best_of_faces orc base encs ?b = Some r"
    and r1: "r = PosInf \<longleftrightarrow> ?b = PosInf \<and> (\<forall>d \<in> set ds'. \<not> d \<le> match_threshold)"
    and r2: "\<forall>x. r = Dist x \<longrightarrow>
                 x \<le> match_threshold \<and> (x \<in> set ds' \<or> ?b = Dist x)
                 \<and> (\<forall>d \<in> set ds'. x \<le> d) \<and> (\<forall>y. ?b = Dist y \<longrightarrow> x \<le> y)"
    by blast
  have eq: "best_of_faces orc base (enc # encs) b = Some r"
    using d r by simp
  have c1: "r = PosInf \<longleftrightarrow> b = PosInf \<and> (\<forall>d \<in> set ds. \<not> d \<le> match_threshold)"
    using r1 Cons.prems(2) ds by (cases b) (auto split: if_splits)
  have c2: "\<forall>x. r = Dist x \<longrightarrow>
                 x \<le> match_threshold \<and> (x \<in> set ds \<or> b = Dist x)
                 \<and> (\<forall>d \<in> set ds. x \<le> d) \<and> (\<forall>y. b = Dist y \<longrightarrow> x \<le> y)"
  proof (intro allI impI)
    fix x assume rx: "r = Dist x"
    with r2 have a: "x \<le> match_threshold" and b': "x \<in> set ds' \<or> ?b = Dist x"
      and c: "\<forall>d \<in> set ds'. x \<le> d" and e: "\<forall>y. ?b = Dist y \<longrightarrow> x \<le> y"
      by blast+
    show "x \<le> match_threshold \<and> (x \<in> set ds \<or> b = Dist x)
                 \<and> (\<forall>d \<in> set ds. x \<le> d) \<and> (\<forall>y. b = Dist y \<longrightarrow> x \<le> y)"
      using a b' c e ds Cons.prems(2) by (cases b) (auto split: if_splits)
  qed
  from eq c1 c2 show ?case by blast
qed

lemma best_of_faces_min:
  assumes "map (face_distance orc base) encs = map Some ds" and "ds \<noteq> []"
  shows "best_of_faces orc base encs PosInf =
           Some (if Min (set ds) \<le> match_threshold then Dist (Min (set ds)) else PosInf)"
proof -
  from best_of_faces_inv [OF assms(1), of PosInf] obtain r where
    r: "best_of_faces orc base encs PosInf = Some r"
    and r1: "r = PosInf \<longleftrightarrow> (\<forall>d \<in> set ds. \<not> d \<le> match_threshold)"
    and r2: "\<forall>x. r = Dist x \<longrightarrow> x \<le> match_threshold \<and> x \<in> set ds \<and> (\<forall>d \<in> set ds. x \<le> d)"
    by auto
  have fin: "finite (set ds)" and ne: "set ds \<noteq> {}" using assms(2) by auto
  show ?thesis
  proof (cases r)
    case PosInf
    with r1 have "\<forall>d \<in> set ds. \<not> d \<le> match_threshold" by simp
    moreover have "Min (set ds) \<in> set ds" using fin ne by (rule Min_in)
    ultimately have "\<not> Min (set ds) \<le> match_threshold" by blast
    with r PosInf show ?thesis by simp
  next
    case (Dist x)
    with r2 have x: "x \<le> match_threshold" "x \<in> set ds" "\<forall>d \<in> set ds. x \<le> d" by auto
    have "Min (set ds) = x"
      using fin x(2,3) by (intro Min_eqI) auto
    with r Dist x(1) show ?thesis by simp
  qed
qed

text \<open>
  Claim C6. An image that decodes and shows one or more faces, whose distances to the
  reference are \<open>ds\<close>, is accepted exactly when the least of these distances is at most
  0.7, and the distance recorded for it is that least distance.
\<close>

theorem match_image_min_distance:
  assumes "load_image orc img = Some arr"
    and "face_locations orc arr = Some locs" and "locs \<noteq> []"
    and "face_encodings orc arr locs = Some encs" and "encs \<noteq> []"
    and "map (face_distance orc base) encs = map Some ds"
  shows "match_image orc base img = Some (if Min (set ds) \<le> 0.7 then Some (Min (set ds)) else None)
         \<and> fst (process_one orc jid base idx img (ms, js)) =
             (if Min (set ds) \<le> 0.7 then ms @ [\<lparr>index = int idx, distance = Min (set ds)\<rparr>] else ms)"
proof -
  from assms(5,6) have "ds \<noteq> []" by (cases ds) auto
  from best_of_faces_min [OF assms(6) this]
  have m: "match_image orc base img = Some (if Min (set ds) \<le> 0.7 then Some (Min (set ds)) else None)"
    using assms(1-4) by (simp add: match_image_def match_threshold_def)
  then show ?thesis by (simp add: process_one_def)
qed

theorem match_image_min_distance_witness:
  "map (face_distance ex_lib 0) [0.9, 0.5, 0.75] = map Some [0.9, 0.5, 0.75]
   \<and> match_image ex_lib 0 ''M'' = Some (Some 0.5)
   \<and> fst (process_one ex_lib ''j1'' 0 2 ''M'' ([], ex_jobs)) = [\<lparr>index = 2, distance = 0.5\<rparr>]"
proof -
  have d: "map (face_distance ex_lib 0) [0.9, 0.5, 0.75] = map Some [0.9, 0.5, 0.75]"
    by (simp add: ex_lib_def)
  have e: "face_encodings ex_lib ''M'' [0, 1, 2] = Some [0.9, 0.5, 0.75]"
    by (simp add: ex_lib_def ex_faces_def)
  have l: "face_locations ex_lib ''M'' = Some [0, 1, 2]"
    by (simp add: ex_lib_def ex_faces_def upt_rec)
  have i: "load_image ex_lib ''M'' = Some ''M''"
    by (simp add: ex_lib_def)
  have m: "Min (set [0.9, 0.5, 0.75 :: real]) = 0.5" by simp
  from match_image_min_distance [OF i l _ e _ d, of "''j1''" 2 "[]" ex_jobs] d m
  show ?thesis by simp
qed

section \<open>Properties of the session store\<close>

lemma map_of_foldl_delete:
  "map_of (foldl (\<lambda>d k. AList.delete k d) al ks) k = (if k \<in> set ks then None else map_of al k)"
  by (induction ks arbitrary: al) (auto simp add: delete_conv')

lemma distinct_foldl_delete:
  "distinct (map fst al) \<Longrightarrow> distinct (map fst (foldl (\<lambda>d k. AList.delete k d) al ks))"
  by (induction ks arbitrary: al) (auto simp add: distinct_delete)

lemma expired_sessions_iff:
  assumes "dict_inv (sessions s)"
  shows "k \<in> set (expired_sessions s now) \<longleftrightarrow>
           (\<exists>d. map_of (sessions s) k = Some d \<and> now - last_accessed d > session_ttl s)"
  using assms by (force simp add: expired_sessions_def dict_inv_def is_expired_def)

lemma distinct_expired_sessions:
  "dict_inv (sessions s) \<Longrightarrow> distinct (expired_sessions s now)"
  by (simp add: expired_sessions_def dict_inv_def distinct_map_filter)

lemma dict_inv_retrieve:
  "dict_inv (sessions s) \<Longrightarrow> dict_inv (sessions (snd (retrieve s sid now)))"
  by (auto simp add: retrieve_def dict_inv_def distinct_update split: option.splits)

lemma dict_inv_store:
  "dict_inv (sessions s) \<Longrightarrow> dict_inv (sessions (store s sid enc t1 t2))"
  by (simp add: store_def dict_inv_def distinct_update)

lemma dict_inv_delete:
  "dict_inv (sessions s) \<Longrightarrow> dict_inv (sessions (snd (delete s sid)))"
  by (simp add: delete_def dict_inv_def distinct_delete)

lemma dict_inv_cleanup:
  "dict_inv (sessions s) \<Longrightarrow> dict_inv (sessions (snd (cleanup_expired_sessions s now)))"
  by (simp add: cleanup_expired_sessions_def Let_def dict_inv_def distinct_foldl_delete)

lemma dict_inv_init: "dict_inv (sessions SessionStore_init)"
  by (simp add: SessionStore_init_def dict_inv_def)

lemma map_of_cleanup:
  assumes "dict_inv (sessions s)"
  shows "map_of (sessions (snd (cleanup_expired_sessions s now))) k =
           (case map_of (sessions s) k of
              None \<Rightarrow> None
            | Some d \<Rightarrow> if now - last_accessed d > session_ttl s then None else Some d)"
  using expired_sessions_iff [OF assms, of k now]
  by (auto simp add: cleanup_expired_sessions_def Let_def map_of_foldl_delete split: option.splits)

lemma count_cleanup:
  assumes "dict_inv (sessions s)"
  shows "fst (cleanup_expired_sessions s now) =
           int (card {k. \<exists>d. map_of (sessions s) k = Some d \<and> now - last_accessed d > session_ttl s})"
proof -
  have "{k. \<exists>d. map_of (sessions s) k = Some d \<and> now - last_accessed d > session_ttl s}
          = set (expired_sessions s now)"
    using expired_sessions_iff [OF assms] by blast
  then show ?thesis
    using distinct_expired_sessions [OF assms, of now]
    by (simp add: cleanup_expired_sessions_def Let_def distinct_card)
qed

text \<open>
  Claim C7. On a present id, \<open>retrieve\<close> returns the stored encoding and sets the last
  access time of that session to now, changing nothing else; on a missing id it returns
  nothing and leaves the store as it is. \<open>cleanup_expired_sessions\<close> removes exactly the
  sessions whose idle time \<open>now - last_accessed\<close> is strictly greater than the TTL, keeps
  every other session unchanged, and returns the number of sessions it removed. So a
  session retrieved at most one TTL before a cleanup survives that cleanup.
\<close>

theorem session_store_retrieve_cleanup:
  assumes "dict_inv (sessions s)"
  shows "(\<forall>d. map_of (sessions s) sid = Some d \<longrightarrow>
            fst (retrieve s sid now) = Some (encoding d)
            \<and> map_of (sessions (snd (retrieve s sid now))) =
                (map_of (sessions s))(sid \<mapsto> d\<lparr>last_accessed := now\<rparr>)
            \<and> session_ttl (snd (retrieve s sid now)) = session_ttl s
            \<and> (now' - now \<le> session_ttl s \<longrightarrow>
                 map_of (sessions (snd (cleanup_expired_sessions (snd (retrieve s sid now)) now'))) sid
                   = Some (d\<lparr>last_accessed := now\<rparr>)))
         \<and> (map_of (sessions s) sid = None \<longrightarrow> retrieve s sid now = (None, s))
         \<and> (\<forall>k. map_of (sessions (snd (cleanup_expired_sessions s now))) k =
                  (case map_of (sessions s) k of
                     None \<Rightarrow> None
                   | Some d \<Rightarrow> if now - last_accessed d > session_ttl s then None else Some d))
         \<and> fst (cleanup_expired_sessions s now) =
             int (card {k. \<exists>d. map_of (sessions s) k = Some d
                              \<and> now - last_accessed d > session_ttl s})
         \<and> session_ttl (snd (cleanup_expired_sessions s now)) = session_ttl s"
proof (intro conjI allI impI)
  fix d assume d: "map_of (sessions s) sid = Some d"
  show "fst (retrieve s sid now) = Some (encoding d)"
    using d by (simp add: retrieve_def)
  show m: "map_of (sessions (snd (retrieve s sid now))) =
             (map_of (sessions s))(sid \<mapsto> d\<lparr>last_accessed := now\<rparr>)"
    using d by (simp add: retrieve_def update_conv')
  show t: "session_ttl (snd (retrieve s sid now)) = session_ttl s"
    using d by (simp add: retrieve_def)
  assume "now' - now \<le> session_ttl s"
  then show "map_of (sessions (snd (cleanup_expired_sessions (snd (retrieve s sid now)) now'))) sid
               = Some (d\<lparr>last_accessed := now\<rparr>)"
    using map_of_cleanup [where s = "snd (retrieve s sid now)" and now = now' and k = sid,
        OF dict_inv_retrieve [OF assms]] m t
    by simp
next
  assume "map_of (sessions s) sid = None"
  then show "retrieve s sid now = (None, s)" by (simp add: retrieve_def)
next
  fix k
  show "map_of (sessions (snd (cleanup_expired_sessions s now))) k =
          (case map_of (sessions s) k of
             None \<Rightarrow> None
           | Some d \<Rightarrow> if now - last_accessed d > session_ttl s then None else Some d)"
    by (rule map_of_cleanup [OF assms])
next
  show "fst (cleanup_expired_sessions s now) =
          int (card {k. \<exists>d. map_of (sessions s) k = Some d \<and> now - last_accessed d > session_ttl s})"
    by (rule count_cleanup [OF assms])
next
  show "session_ttl (snd (cleanup_expired_sessions s now)) = session_ttl s"
    by (simp add: cleanup_expired_sessions_def Let_def)
qed

lemma ex_sessions2_sessions:
  "sessions ex_sessions2 =
     [(''s1'', \<lparr>encoding = 0, created_at = 0, last_accessed = 0\<rparr>),
      (''s2'', \<lparr>encoding = 1, created_at = 50000000000, last_accessed = 50000000000\<rparr>)]"
  by (simp add: ex_sessions2_def store_def SessionStore_init_def SessionData_init_def)

lemma ex_sessions2_ttl: "session_ttl ex_sessions2 = 86400000000"
  by (simp add: ex_sessions2_def store_def SessionStore_init_def hours_def)

theorem session_store_retrieve_cleanup_witness:
  "dict_inv (sessions ex_sessions2)
   \<and> map_of (sessions ex_sessions2) ''s2'' =
       Some \<lparr>encoding = 1, created_at = 50000000000, last_accessed = 50000000000\<rparr>
   \<and> fst (retrieve ex_sessions2 ''s2'' 60000000000) = Some 1
   \<and> map_of (sessions (snd (retrieve ex_sessions2 ''s2'' 60000000000))) ''s2'' =
       Some \<lparr>encoding = 1, created_at = 50000000000, last_accessed = 60000000000\<rparr>
   \<and> map_of (sessions ex_sessions2) ''s3'' = None
   \<and> retrieve ex_sessions2 ''s3'' 60000000000 = (None, ex_sessions2)
   \<and> fst (cleanup_expired_sessions ex_sessions2 90000000000) = 1
   \<and> map_of (sessions (snd (cleanup_expired_sessions ex_sessions2 90000000000))) ''s1'' = None
   \<and> map_of (sessions (snd (cleanup_expired_sessions ex_sessions2 90000000000))) ''s2'' =
       Some \<lparr>encoding = 1, created_at = 50000000000, last_accessed = 50000000000\<rparr>"
proof -
  have inv: "dict_inv (sessions ex_sessions2)"
    by (simp add: ex_sessions2_sessions dict_inv_def)
  have n: "fst (cleanup_expired_sessions ex_sessions2 90000000000) = 1"
    by (simp add: cleanup_expired_sessions_def expired_sessions_def is_expired_def
        ex_sessions2_sessions ex_sessions2_ttl)
  have m2: "map_of (sessions ex_sessions2) ''s2'' =
       Some \<lparr>encoding = 1, created_at = 50000000000, last_accessed = 50000000000\<rparr>"
    and m3: "map_of (sessions ex_sessions2) ''s3'' = None"
    and m1: "map_of (sessions ex_sessions2) ''s1'' =
       Some \<lparr>encoding = 0, created_at = 0, last_accessed = 0\<rparr>"
    by (simp_all add: ex_sessions2_sessions)
  note inst = session_store_retrieve_cleanup [OF inv]
  from inst [of "''s2''" 60000000000 90000000000] m2
  have r2: "fst (retrieve ex_sessions2 ''s2'' 60000000000) = Some 1
      \<and> map_of (sessions (snd (retrieve ex_sessions2 ''s2'' 60000000000))) ''s2'' =
          Some \<lparr>encoding = 1, created_at = 50000000000, last_accessed = 60000000000\<rparr>"
    by simp
  from inst [of "''s3''" 60000000000 90000000000] m3
  have r3: "retrieve ex_sessions2 ''s3'' 60000000000 = (None, ex_sessions2)"
    by simp
  from inst [of "''s3''" 90000000000 0]
  have c: "map_of (sessions (snd (cleanup_expired_sessions ex_sessions2 90000000000))) k =
             (case map_of (sessions ex_sessions2) k of
                None \<Rightarrow> None
              | Some d \<Rightarrow> if 90000000000 - last_accessed d > session_ttl ex_sessions2 then None
                          else Some d)" for k
    by blast
  have c1: "map_of (sessions (snd (cleanup_expired_sessions ex_sessions2 90000000000))) ''s1'' = None"
    by (simp add: c m1 ex_sessions2_ttl)
  have c2: "map_of (sessions (snd (cleanup_expired_sessions ex_sessions2 90000000000))) ''s2'' =
       Some \<lparr>encoding = 1, created_at = 50000000000, last_accessed = 50000000000\<rparr>"
    by (simp add: c m2 ex_sessions2_ttl)
  from inv m2 m3 r2 r3 n c1 c2 show ?thesis by simp
qed

section \<open>Properties of the batch processor\<close>

lemma match_image_le_threshold:
  "match_image orc base img = Some (Some d) \<Longrightarrow> d \<le> match_threshold"
  by (auto simp add: match_image_def split: option.splits if_splits best.splits)

lemma process_one_fst:
  "fst (process_one orc jid base idx img (ms, js)) =
     ms @ (case match_image orc base img of
             Some (Some d) \<Rightarrow> [\<lparr>index = int idx, distance = d\<rparr>]
           | _ \<Rightarrow> [])"
  by (simp add: process_one_def Let_def split: option.splits)

lemma process_one_present:
  "js jid = Some job \<Longrightarrow>
     \<exists>job'. snd (process_one orc jid base idx img (ms, js)) jid = Some job'
            \<and> total_images job' = total_images job"
  by (simp add: process_one_def Let_def update_progress_def split: option.splits)

lemma process_images_fst:
  "fst (process_images orc jid base idx imgs (ms, js)) = ms @ matches_of orc base idx imgs"
proof (induction imgs arbitrary: idx ms js)
  case Nil
  then show ?case by simp
next
  case (Cons img imgs)
  obtain ms1 js1 where p: "process_one orc jid base idx img (ms, js) = (ms1, js1)"
    by (cases "process_one orc jid base idx img (ms, js)")
  from process_one_fst [of orc jid base idx img ms js] p
  have "ms1 = ms @ (case match_image orc base img of
             Some (Some d) \<Rightarrow> [\<lparr>index = int idx, distance = d\<rparr>]
           | _ \<Rightarrow> [])" by simp
  with Cons.IH [of "Suc idx" ms1 js1] p show ?case by simp
qed

lemma process_images_present:
  "js jid = Some job \<Longrightarrow>
     \<exists>job'. snd (process_images orc jid base idx imgs (ms, js)) jid = Some job'
            \<and> total_images job' = total_images job"
proof (induction imgs arbitrary: idx ms js job)
  case Nil
  then show ?case by simp
next
  case (Cons img imgs)
  obtain ms1 js1 where p: "process_one orc jid base idx img (ms, js) = (ms1, js1)"
    by (cases "process_one orc jid base idx img (ms, js)")
  from process_one_present [where js = js and jid = jid, OF Cons.prems, of orc base idx img ms] p
  obtain job1 where j1: "js1 jid = Some job1" and t1: "total_images job1 = total_images job"
    by auto
  from Cons.IH [where js = js1, OF j1, of "Suc idx" ms1] p t1 show ?case by simp
qed

lemma matches_of_bounds:
  "m \<in> set (matches_of orc base idx imgs) \<Longrightarrow>
     int idx \<le> index m \<and> index m < int idx + int (length imgs) \<and> distance m \<le> match_threshold"
proof (induction imgs arbitrary: idx)
  case Nil
  then show ?case by simp
next
  case (Cons img imgs)
  show ?case
  proof (cases "m \<in> set (matches_of orc base (Suc idx) imgs)")
    case True
    from Cons.IH [OF True] show ?thesis by simp
  next
    case False
    with Cons.prems show ?thesis
      using match_image_le_threshold [of orc base img]
      by (auto split: option.splits)
  qed
qed

lemma matches_of_sorted: "sorted_wrt (<) (map index (matches_of orc base idx imgs))"
proof (induction imgs arbitrary: idx)
  case Nil
  then show ?case by simp
next
  case (Cons img imgs)
  have "\<forall>m \<in> set (matches_of orc base (Suc idx) imgs). int idx < index m"
    using matches_of_bounds [of _ orc base "Suc idx" imgs] by fastforce
  with Cons.IH [of "Suc idx"] show ?case
    by (auto simp add: sorted_wrt_append split: option.splits)
qed

lemma process_batch_background_present:
  assumes "map_of (sessions (session_store sys)) sid = Some d"
  shows "process_batch_background orc now jid sid images sys =
           \<lparr>session_store = snd (retrieve (session_store sys) sid now),
            job_store = complete_job
              (snd (process_images orc jid (encoding d) 0 images ([], job_store sys))) jid
              (matches_of orc (encoding d) 0 images)\<rparr>"
proof -
  obtain ms js where p: "process_images orc jid (encoding d) 0 images ([], job_store sys) = (ms, js)"
    by (cases "process_images orc jid (encoding d) 0 images ([], job_store sys)")
  from process_images_fst [of orc jid "encoding d" 0 images "[]" "job_store sys"] p
  have "ms = matches_of orc (encoding d) 0 images" by simp
  with p assms show ?thesis
    by (simp add: process_batch_background_def retrieve_def)
qed

text \<open>
  Claim C5. When the session exists at the start of the batch and the job exists, the batch
  leaves the job completed, and its final list of matches has indices in
  \<open>[0, length images)\<close> that increase strictly along the list (so they are pairwise
  distinct: at most one entry per image), and every distance is at most 0.7.
\<close>

theorem completed_job_matches:
  assumes "map_of (sessions (session_store sys)) sid = Some d"
    and "job_store sys jid = Some job"
  shows "\<exists>job'. job_store (process_batch_background orc now jid sid images sys) jid = Some job'
           \<and> status job' = ''completed''
           \<and> total_images job' = total_images job
           \<and> sorted_wrt (<) (map index (matches job'))
           \<and> distinct (map index (matches job'))
           \<and> (\<forall>m \<in> set (matches job').
                 0 \<le> index m \<and> index m < int (length images) \<and> distance m \<le> 0.7)"
proof -
  let ?ms = "matches_of orc (encoding d) 0 images"
  from process_images_present [where js = "job_store sys" and jid = jid, OF assms(2),
      of orc "encoding d" 0 images "[]"]
  obtain job1 where j1: "snd (process_images orc jid (encoding d) 0 images ([], job_store sys)) jid = Some job1"
    and t1: "total_images job1 = total_images job"
    by auto
  have s: "sorted_wrt (<) (map index ?ms)" by (rule matches_of_sorted)
  then have dist: "distinct (map index ?ms)"
    by (simp add: strict_sorted_iff)
  have b: "\<forall>m \<in> set ?ms. 0 \<le> index m \<and> index m < int (length images) \<and> distance m \<le> 0.7"
    using matches_of_bounds [of _ orc "encoding d" 0 images] by (fastforce simp add: match_threshold_def)
  show ?thesis
    using j1 t1 s dist b
    by (simp add: process_batch_background_present [OF assms(1)] complete_job_def)
qed

lemma ex_match_image:
  "match_image ex_lib 0 ''A'' = Some (Some 0.5)"
  "match_image ex_lib 0 ''B'' = Some None"
  "match_image ex_lib 0 ''C'' = Some None"
  "match_image ex_lib 0 ''M'' = Some (Some 0.5)"
  "match_image ex_lib 0 ''bad'' = None"
  by (simp_all add: match_image_def ex_lib_def ex_faces_def match_threshold_def upt_rec)

lemma ex_system_session:
  "map_of (sessions (session_store ex_system)) ''s1'' =
     Some \<lparr>encoding = 0, created_at = 0, last_accessed = 0\<rparr>"
  by (simp add: ex_system_def ex_sessions_def store_def SessionStore_init_def SessionData_init_def)

lemma ex_system_job: "job_store ex_system ''j1'' = Some ex_job"
  by (simp add: ex_system_def ex_jobs_j1)

theorem completed_job_matches_witness:
  "map_of (sessions (session_store ex_system)) ''s1'' =
     Some \<lparr>encoding = 0, created_at = 0, last_accessed = 0\<rparr>
   \<and> job_store ex_system ''j1'' = Some ex_job
   \<and> map_option status
        (job_store (process_batch_background ex_lib 5 ''j1'' ''s1'' [''A'', ''B'', ''C''] ex_system) ''j1'')
       = Some ''completed''
   \<and> map_option matches
        (job_store (process_batch_background ex_lib 5 ''j1'' ''s1'' [''A'', ''B'', ''C''] ex_system) ''j1'')
       = Some [\<lparr>index = 0, distance = 0.5\<rparr>]"
proof -
  let ?r = "job_store (process_batch_background ex_lib 5 ''j1'' ''s1'' [''A'', ''B'', ''C''] ex_system) ''j1''"
  from completed_job_matches [OF ex_system_session ex_system_job, of ex_lib 5 "[''A'', ''B'', ''C'']"]
  obtain job' where j: "?r = Some job'" and st: "status job' = ''completed''"
    by blast
  have "matches_of ex_lib (0::real) 0 [''A'', ''B'', ''C''] = [\<lparr>index = 0, distance = 0.5\<rparr>]"
    by (simp add: ex_match_image)
  with j have "matches job' = [\<lparr>index = 0, distance = 0.5\<rparr>]"
    by (auto simp add: process_batch_background_present [OF ex_system_session] complete_job_def
        split: option.splits)
  with j st ex_system_session ex_system_job show ?thesis by simp
qed

lemma process_one_calls_sound:
  "process_one orc jid base idx img (ms, js) =
     (fst (process_one_calls orc jid base idx img ms),
      foldl apply_call js (snd (process_one_calls orc jid base idx img ms)))"
  by (simp add: process_one_def process_one_calls_def Let_def split: option.splits)

lemma process_images_calls_sound:
  "process_images orc jid base idx imgs (ms, js) =
     (fst (process_images_calls orc jid base idx imgs ms),
      foldl apply_call js (snd (process_images_calls orc jid base idx imgs ms)))"
proof (induction imgs arbitrary: idx ms js)
  case Nil
  then show ?case by simp
next
  case (Cons img imgs)
  show ?case
    by (simp add: process_one_calls_sound [of orc jid base idx img ms js] Cons.IH
        split: prod.splits)
qed

lemma process_batch_calls_sound:
  "job_store (process_batch_background orc now jid sid images sys) =
     foldl apply_call (job_store sys) (process_batch_calls orc now jid sid images sys)"
  by (simp add: process_batch_background_def process_batch_calls_def
      process_images_calls_sound [of orc jid _ 0 images "[]" "job_store sys"]
      split: prod.splits option.splits)

lemma process_images_calls_eq:
  "process_images_calls orc jid base idx imgs ms =
     (ms @ matches_of orc base idx imgs,
      map (\<lambda>i. UpdateProgress jid (int (idx + i) + 1)
                 (int (length ms + length (matches_of orc base idx (take (Suc i) imgs)))))
          (filter (\<lambda>i. \<not> image_raised orc base (imgs ! i)) [0..<length imgs]))"
proof (induction imgs arbitrary: idx ms)
  case Nil
  then show ?case by simp
next
  case (Cons img imgs)
  define one where "one = matches_of orc base idx [img]"
  have mc: "matches_of orc base idx (img # xs) = one @ matches_of orc base (Suc idx) xs" for xs
    by (simp add: one_def)
  have p1: "process_one_calls orc jid base idx img ms =
     (ms @ one,
      if image_raised orc base img then []
      else [UpdateProgress jid (int idx + 1) (int (length ms + length one))])"
    by (simp add: process_one_calls_def image_raised_def one_def Let_def split: option.splits)
  have upt: "[0..<length (img # imgs)] = 0 # map Suc [0..<length imgs]"
    by (simp add: upt_conv_Cons map_Suc_upt del: upt_Suc)
  have tl: "map (\<lambda>i. UpdateProgress jid (int (idx + i) + 1)
                 (int (length ms + length (matches_of orc base idx (take (Suc i) (img # imgs))))))
              (filter (\<lambda>i. \<not> image_raised orc base ((img # imgs) ! i)) (map Suc [0..<length imgs]))
          = map (\<lambda>i. UpdateProgress jid (int (Suc idx + i) + 1)
                 (int (length (ms @ one) + length (matches_of orc base (Suc idx) (take (Suc i) imgs)))))
              (filter (\<lambda>i. \<not> image_raised orc base (imgs ! i)) [0..<length imgs])"
    by (simp add: filter_map comp_def mc del: matches_of.simps)
  have hd: "matches_of orc base idx (take (Suc 0) (img # imgs)) = one"
    by (simp add: one_def)
  let ?F = "\<lambda>i. UpdateProgress jid (int (idx + i) + 1)
                 (int (length ms + length (matches_of orc base idx (take (Suc i) (img # imgs)))))"
  let ?P = "\<lambda>i. \<not> image_raised orc base ((img # imgs) ! i)"
  let ?here = "if image_raised orc base img then []
               else [UpdateProgress jid (int idx + 1) (int (length ms + length one))]"
  have "filter ?P (0 # map Suc [0..<length imgs]) =
          (if image_raised orc base img then [] else [0]) @ filter ?P (map Suc [0..<length imgs])"
    by simp
  then have "map ?F (filter ?P (0 # map Suc [0..<length imgs])) =
          map ?F (if image_raised orc base img then [] else [0])
          @ map ?F (filter ?P (map Suc [0..<length imgs]))"
    by (simp only: map_append)
  moreover have "map ?F (if image_raised orc base img then [] else [0]) = ?here"
    using hd by simp
  ultimately have rhs: "map ?F (filter ?P [0..<length (img # imgs)]) =
      ?here @ map (\<lambda>i. UpdateProgress jid (int (Suc idx + i) + 1)
                 (int (length (ms @ one) + length (matches_of orc base (Suc idx) (take (Suc i) imgs)))))
              (filter (\<lambda>i. \<not> image_raised orc base (imgs ! i)) [0..<length imgs])"
    by (simp only: upt tl)
  have "process_images_calls orc jid base idx (img # imgs) ms =
          (case process_images_calls orc jid base (Suc idx) imgs (ms @ one) of
             (ms2, calls2) \<Rightarrow> (ms2, ?here @ calls2))"
    by (simp add: p1)
  also have "\<dots> = (ms @ matches_of orc base idx (img # imgs), map ?F (filter ?P [0..<length (img # imgs)]))"
    by (simp only: rhs Cons.IH prod.case mc append_assoc)
  finally show ?case .
qed

text \<open>
  Claim C3, as the code has it. \<^verbatim>\<open>update_progress\<close> is the last statement of the \<^verbatim>\<open>try\<close> body,
  so it is called once for each image whose processing raised nothing, in submission order,
  with the position plus one and the number of matches among the images up to that one; an
  image whose decoding, detection or encoding raised makes the loop continue with no call.
  After the loop \<^verbatim>\<open>complete_job\<close> is called once with all matches. These calls are all the
  batch does to the job store.
\<close>

theorem update_progress_calls:
  assumes "map_of (sessions (session_store sys)) sid = Some d"
  shows "process_batch_calls orc now jid sid images sys =
           map (\<lambda>i. UpdateProgress jid (int i + 1)
                      (int (length (matches_of orc (encoding d) 0 (take (Suc i) images)))))
               (filter (\<lambda>i. \<not> image_raised orc (encoding d) (images ! i)) [0..<length images])
           @ [CompleteJob jid (matches_of orc (encoding d) 0 images)]
         \<and> job_store (process_batch_background orc now jid sid images sys) =
             foldl apply_call (job_store sys) (process_batch_calls orc now jid sid images sys)"
  using assms
  by (simp add: process_batch_calls_sound)
     (simp add: process_batch_calls_def retrieve_def process_images_calls_eq)

theorem update_progress_calls_witness:
  "map_of (sessions (session_store ex_system)) ''s1'' =
     Some \<lparr>encoding = 0, created_at = 0, last_accessed = 0\<rparr>
   \<and> process_batch_calls ex_lib 5 ''j1'' ''s1'' [''A'', ''bad'', ''M''] ex_system =
       [UpdateProgress ''j1'' 1 1, UpdateProgress ''j1'' 3 2,
        CompleteJob ''j1'' [\<lparr>index = 0, distance = 0.5\<rparr>, \<lparr>index = 2, distance = 0.5\<rparr>]]"
proof -
  have u: "[0..<length [''A'', ''bad'', ''M'']] = [0, 1, 2]"
    by (simp add: upt_rec)
  from update_progress_calls [OF ex_system_session, of ex_lib 5 "''j1''" "[''A'', ''bad'', ''M'']"]
    ex_system_session
  show ?thesis
    unfolding u by (simp add: image_raised_def ex_match_image)
qed

theorem update_progress_skipped_counterexample:
  "image_raised ex_lib 0 ''bad''
   \<and> process_batch_calls ex_lib 5 ''j1'' ''s1'' [''A'', ''bad'', ''M''] ex_system =
       [UpdateProgress ''j1'' 1 1, UpdateProgress ''j1'' 3 2,
        CompleteJob ''j1'' [\<lparr>index = 0, distance = 0.5\<rparr>, \<lparr>index = 2, distance = 0.5\<rparr>]]
   \<and> map_option current_image
        (job_store (process_batch_background ex_lib 5 ''j1'' ''s1'' [''A'', ''bad''] ex_system) ''j1'')
       = Some 1"
proof -
  have r: "retrieve (session_store ex_system) ''s1'' 5 =
             (Some 0, ex_sessions\<lparr>sessions :=
                [(''s1'', \<lparr>encoding = 0, created_at = 0, last_accessed = 5\<rparr>)]\<rparr>)"
    by (simp add: retrieve_def ex_system_def ex_sessions_def store_def SessionStore_init_def
        SessionData_init_def)
  have c: "process_batch_calls ex_lib 5 ''j1'' ''s1'' [''A'', ''bad'', ''M''] ex_system =
       [UpdateProgress ''j1'' 1 1, UpdateProgress ''j1'' 3 2,
        CompleteJob ''j1'' [\<lparr>index = 0, distance = 0.5\<rparr>, \<lparr>index = 2, distance = 0.5\<rparr>]]"
    by (simp add: process_batch_calls_def r process_one_calls_def ex_match_image)
  have p: "map_option current_image
        (job_store (process_batch_background ex_lib 5 ''j1'' ''s1'' [''A'', ''bad''] ex_system) ''j1'')
       = Some 1"
    by (simp add: process_batch_background_def r process_one_def ex_match_image
        update_progress_def complete_job_def ex_system_job)
  from c p show ?thesis by (simp add: image_raised_def ex_match_image)
qed

lemma process_images_env_jobs:
  "fst (process_images_env orc jid base env idx imgs (ms, sys)) =
     fst (process_images orc jid base idx imgs (ms, job_store sys))
   \<and> job_store (snd (process_images_env orc jid base env idx imgs (ms, sys))) =
     snd (process_images orc jid base idx imgs (ms, job_store sys))"
proof (induction imgs arbitrary: idx ms sys)
  case Nil
  then show ?case by simp
next
  case (Cons img imgs)
  obtain ms1 js1 where p: "process_one orc jid base idx img (ms, job_store sys) = (ms1, js1)"
    by (cases "process_one orc jid base idx img (ms, job_store sys)")
  let ?sys1 = "\<lparr>session_store = env idx (session_store sys), job_store = js1\<rparr>"
  have "process_images_env orc jid base env idx (img # imgs) (ms, sys) =
          process_images_env orc jid base env (Suc idx) imgs (ms1, ?sys1)"
    by (simp add: p)
  moreover have "process_images orc jid base idx (img # imgs) (ms, job_store sys) =
          process_images orc jid base (Suc idx) imgs (ms1, job_store ?sys1)"
    by (simp add: p)
  ultimately show ?case
    using Cons.IH [of "Suc idx" ms1 ?sys1] by simp
qed

lemma process_batch_interleaved_jobs:
  "job_store (process_batch_interleaved orc now jid sid images env sys) =
     job_store (process_batch_background orc now jid sid images sys)"
proof (cases "retrieve (session_store sys) sid now")
  case (Pair b ss)
  show ?thesis
  proof (cases b)
    case None
    with Pair show ?thesis
      by (simp add: process_batch_interleaved_def process_batch_background_def)
  next
    case (Some base)
    let ?sys0 = "\<lparr>session_store = ss, job_store = job_store sys\<rparr>"
    obtain ms1 sys1 where pe:
      "process_images_env orc jid base env 0 images ([], ?sys0) = (ms1, sys1)"
      by (cases "process_images_env orc jid base env 0 images ([], ?sys0)")
    obtain ms2 js2 where pi:
      "process_images orc jid base 0 images ([], job_store sys) = (ms2, js2)"
      by (cases "process_images orc jid base 0 images ([], job_store sys)")
    from process_images_env_jobs [of orc jid base env 0 images "[]" ?sys0] pe pi
    have "ms1 = ms2" and "job_store sys1 = js2" by simp_all
    with Pair Some pe pi show ?thesis
      by (simp add: process_batch_interleaved_def process_batch_background_def)
  qed
qed

lemma ex_retrieve:
  "retrieve (session_store ex_system) ''s1'' 5 =
     (Some 0, ex_sessions\<lparr>sessions :=
        [(''s1'', \<lparr>encoding = 0, created_at = 0, last_accessed = 5\<rparr>)]\<rparr>)"
  by (simp add: retrieve_def ex_system_def ex_sessions_def store_def SessionStore_init_def
      SessionData_init_def)

lemma ex_batch_result:
  "map_option status
     (job_store (process_batch_background ex_lib 5 ''j1'' ''s1'' [''A'', ''B'', ''C''] ex_system) ''j1'')
    = Some ''completed''"
  "map_option matches
     (job_store (process_batch_background ex_lib 5 ''j1'' ''s1'' [''A'', ''B'', ''C''] ex_system) ''j1'')
    = Some [\<lparr>index = 0, distance = 0.5\<rparr>]"
  by (simp_all add: process_batch_background_def ex_retrieve process_one_def ex_match_image
      update_progress_def complete_job_def ex_system_job)

text \<open>
  Claim C4. The batch reads the session store once, by the \<open>retrieve\<close> at its start, and
  that is all it does to the session store. If the session is absent then, it calls
  \<open>fail_job\<close> with the error \<open>Session not found\<close> and nothing else: no image is looked at and
  no progress is reported. Whatever other requests do to the session store after that
  first read (deleting the session, for one), the job store the batch leaves behind is the
  one of an undisturbed run.
\<close>

theorem session_read_once:
  "session_store (process_batch_background orc now jid sid images sys) =
     snd (retrieve (session_store sys) sid now)
   \<and> (map_of (sessions (session_store sys)) sid = None \<longrightarrow>
        process_batch_background orc now jid sid images sys =
          \<lparr>session_store = session_store sys,
           job_store = fail_job (job_store sys) jid ''Session not found''\<rparr>
        \<and> process_batch_calls orc now jid sid images sys = [FailJob jid ''Session not found'']
        \<and> (\<forall>job. job_store sys jid = Some job \<longrightarrow>
              job_store (process_batch_background orc now jid sid images sys) jid =
                Some (job\<lparr>status := ''failed'', error := Some ''Session not found'',
                          message := ''Failed: Session not found''\<rparr>)))
   \<and> (\<forall>env. job_store (process_batch_interleaved orc now jid sid images env sys) =
              job_store (process_batch_background orc now jid sid images sys))"
proof (intro conjI allI impI)
  show "session_store (process_batch_background orc now jid sid images sys) =
          snd (retrieve (session_store sys) sid now)"
    by (simp add: process_batch_background_def split: prod.splits option.splits)
next
  assume a: "map_of (sessions (session_store sys)) sid = None"
  then have r: "retrieve (session_store sys) sid now = (None, session_store sys)"
    by (simp add: retrieve_def)
  show b: "process_batch_background orc now jid sid images sys =
          \<lparr>session_store = session_store sys,
           job_store = fail_job (job_store sys) jid ''Session not found''\<rparr>"
    by (simp add: process_batch_background_def r)
  show "process_batch_calls orc now jid sid images sys = [FailJob jid ''Session not found'']"
    by (simp add: process_batch_calls_def r)
  fix job assume "job_store sys jid = Some job"
  then show "job_store (process_batch_background orc now jid sid images sys) jid =
                Some (job\<lparr>status := ''failed'', error := Some ''Session not found'',
                          message := ''Failed: Session not found''\<rparr>)"
    by (simp add: b fail_job_def)
next
  fix env
  show "job_store (process_batch_interleaved orc now jid sid images env sys) =
          job_store (process_batch_background orc now jid sid images sys)"
    by (rule process_batch_interleaved_jobs)
qed

theorem session_read_once_witness:
  "map_of (sessions (session_store ex_system)) ''s9'' = None
   \<and> job_store ex_system ''j1'' = Some ex_job
   \<and> job_store (process_batch_background ex_lib 5 ''j1'' ''s9'' [''A'', ''B'', ''C''] ex_system) ''j1'' =
       Some (ex_job\<lparr>status := ''failed'', error := Some ''Session not found'',
                    message := ''Failed: Session not found''\<rparr>)
   \<and> process_batch_calls ex_lib 5 ''j1'' ''s9'' [''A'', ''B'', ''C''] ex_system =
       [FailJob ''j1'' ''Session not found'']
   \<and> map_option matches
        (job_store (process_batch_interleaved ex_lib 5 ''j1'' ''s1'' [''A'', ''B'', ''C'']
                      (\<lambda>k s. snd (delete s ''s1'')) ex_system) ''j1'')
       = Some [\<lparr>index = 0, distance = 0.5\<rparr>]
   \<and> map_option status
        (job_store (process_batch_interleaved ex_lib 5 ''j1'' ''s1'' [''A'', ''B'', ''C'']
                      (\<lambda>k s. snd (delete s ''s1'')) ex_system) ''j1'')
       = Some ''completed''
   \<and> map_of (sessions (session_store
        (process_batch_interleaved ex_lib 5 ''j1'' ''s1'' [''A'', ''B'', ''C'']
           (\<lambda>k s. snd (delete s ''s1'')) ex_system))) ''s1'' = None"
proof -
  have a: "map_of (sessions (session_store ex_system)) ''s9'' = None"
    by (simp add: ex_system_def ex_sessions_def store_def SessionStore_init_def)
  note inst = session_read_once [of ex_lib 5 "''j1''" _ "[''A'', ''B'', ''C'']" ex_system]
  from inst [of "''s9''"] a
  have g: "\<forall>job. job_store ex_system ''j1'' = Some job \<longrightarrow>
      job_store (process_batch_background ex_lib 5 ''j1'' ''s9'' [''A'', ''B'', ''C''] ex_system) ''j1'' =
       Some (job\<lparr>status := ''failed'', error := Some ''Session not found'',
                    message := ''Failed: Session not found''\<rparr>)"
    and c: "process_batch_calls ex_lib 5 ''j1'' ''s9'' [''A'', ''B'', ''C''] ex_system =
       [FailJob ''j1'' ''Session not found'']"
    by blast+
  from g ex_system_job
  have f: "job_store (process_batch_background ex_lib 5 ''j1'' ''s9'' [''A'', ''B'', ''C''] ex_system) ''j1'' =
       Some (ex_job\<lparr>status := ''failed'', error := Some ''Session not found'',
                    message := ''Failed: Session not found''\<rparr>)"
    by blast
  from inst [of "''s1''"]
  have e: "job_store (process_batch_interleaved ex_lib 5 ''j1'' ''s1'' [''A'', ''B'', ''C'']
                      (\<lambda>k s. snd (delete s ''s1'')) ex_system) =
           job_store (process_batch_background ex_lib 5 ''j1'' ''s1'' [''A'', ''B'', ''C''] ex_system)"
    by blast
  have d: "map_of (sessions (session_store
        (process_batch_interleaved ex_lib 5 ''j1'' ''s1'' [''A'', ''B'', ''C'']
           (\<lambda>k s. snd (delete s ''s1'')) ex_system))) ''s1'' = None"
    by (simp add: process_batch_interleaved_def ex_retrieve process_one_def ex_match_image delete_def
        split: prod.splits)
  from ex_batch_result a ex_system_job f c d show ?thesis
    by (simp add: e)
qed

section \<open>Properties of the progress computation\<close>

lemma pow2_powi: "pow2 e = 2 powi e"
  by (simp add: pow2_def power_int_def inverse_eq_divide power_one_over)

lemma pow2_pos: "0 < pow2 e"
  by (simp add: pow2_powi)

lemma pow2_mono: "a \<le> b \<Longrightarrow> pow2 a \<le> pow2 b"
  by (simp add: pow2_powi power_int_increasing)

lemma pow2_strict_mono: "a < b \<Longrightarrow> pow2 a < pow2 b"
  by (simp add: pow2_powi power_int_strict_increasing)

lemma pow2_diff: "pow2 (a - b) = pow2 a / pow2 b"
  by (simp add: pow2_powi power_int_diff)

lemma pow2_nat: "pow2 (int n) = 2 ^ n"
  by (simp add: pow2_def)

lemma bit_length_bounds:
  "0 < n \<Longrightarrow> 2 ^ (bit_length n - 1) \<le> n \<and> n < 2 ^ bit_length n"
proof (induction n rule: bit_length.induct)
  case (1 n)
  show ?case
  proof (cases "n div 2 = 0")
    case True
    with "1.prems" have "n = 1" by (simp add: div_eq_0_iff)
    then show ?thesis by (simp add: bit_length.simps)
  next
    case False
    let ?m = "n div 2"
    from False have m: "0 < ?m" by simp
    from "1.prems" have n0: "n \<noteq> 0" by simp
    from "1.IH" [OF n0 m] have IH: "2 ^ (bit_length ?m - 1) \<le> ?m \<and> ?m < 2 ^ bit_length ?m" .
    have bl: "bit_length n = Suc (bit_length ?m)"
      using n0 by (simp add: bit_length.simps [of n])
    have "0 < bit_length ?m"
      using m by (simp add: bit_length.simps [of ?m])
    then obtain k where k: "bit_length ?m = Suc k"
      by (cases "bit_length ?m") auto
    from IH k have lo: "2 ^ k \<le> ?m" and hi: "?m < 2 * 2 ^ k" by simp_all
    have "2 * ?m \<le> n" and "n < 2 * ?m + 2" by arith+
    with lo hi have "2 * 2 ^ k \<le> n" and "n < 2 * (2 * 2 ^ k)" by linarith+
    then show ?thesis by (simp add: bl k)
  qed
qed

lemma bit_length_pow2:
  assumes "0 < n"
  shows "pow2 (int (bit_length n) - 1) \<le> of_nat n \<and> of_nat n < pow2 (int (bit_length n))"
proof -
  from bit_length_bounds [OF assms]
  have lo: "2 ^ (bit_length n - 1) \<le> n" and hi: "n < 2 ^ bit_length n" by simp_all
  have "0 < bit_length n" using assms by (simp add: bit_length.simps [of n])
  then have e: "int (bit_length n) - 1 = int (bit_length n - 1)" by simp
  have "(of_nat (2 ^ (bit_length n - 1)) :: rat) \<le> of_nat n"
    using lo by (simp only: of_nat_le_iff)
  moreover have "(of_nat n :: rat) < of_nat (2 ^ bit_length n)"
    using hi by (simp only: of_nat_less_iff)
  ultimately show ?thesis
    by (simp add: e pow2_nat)
qed

lemma floor_log2_bounds:
  assumes "0 < a"
  shows "pow2 (floor_log2 a) \<le> a \<and> a < pow2 (floor_log2 a + 1)"
proof -
  obtain p q where pq: "quotient_of a = (p, q)" by (cases "quotient_of a")
  then have q: "0 < q" by (rule quotient_of_denom_pos)
  from pq have a: "a = of_int p / of_int q" by (rule quotient_of_div)
  with assms q have p: "0 < p" by (simp add: zero_less_divide_iff)
  define bp where "bp = int (bit_length (nat p))"
  define bq where "bq = int (bit_length (nat q))"
  have P: "pow2 (bp - 1) \<le> of_int p \<and> of_int p < pow2 bp"
    using bit_length_pow2 [of "nat p"] p by (simp add: bp_def)
  have Q: "pow2 (bq - 1) \<le> of_int q \<and> of_int q < pow2 bq"
    using bit_length_pow2 [of "nat q"] q by (simp add: bq_def)
  have qpos: "(0::rat) < of_int q" using q by simp
  have ppos: "(0::rat) < of_int p" using p by simp
  have up: "a < pow2 (bp - bq + 1)"
  proof -
    have "of_int p / of_int q < pow2 bp / pow2 (bq - 1)"
      using P Q ppos pow2_pos [of "bq - 1"] by (intro frac_less) simp_all
    also have "\<dots> = pow2 (bp - (bq - 1))" by (simp add: pow2_diff)
    finally show ?thesis by (simp add: a algebra_simps)
  qed
  have low: "pow2 (bp - bq - 1) < a"
  proof -
    have "pow2 (bp - 1) / pow2 bq < of_int p / of_int q"
      using P Q qpos pow2_pos [of "bp - 1"] by (intro frac_less2) simp_all
    moreover have "pow2 (bp - 1) / pow2 bq = pow2 (bp - 1 - bq)" by (simp add: pow2_diff)
    ultimately show ?thesis by (simp add: a algebra_simps)
  qed
  have f: "floor_log2 a = (if pow2 (bp - bq) \<le> a then bp - bq else bp - bq - 1)"
    by (simp add: floor_log2_def pq bp_def bq_def Let_def)
  show ?thesis
  proof (cases "pow2 (bp - bq) \<le> a")
    case True
    with f up show ?thesis by simp
  next
    case False
    with f low show ?thesis by simp
  qed
qed

lemma floor_log2_eq:
  assumes "pow2 e \<le> a" and "a < pow2 (e + 1)"
  shows "floor_log2 a = e"
proof -
  have pos: "0 < a" using assms(1) pow2_pos [of e] by simp
  from floor_log2_bounds [OF pos]
  have lo: "pow2 (floor_log2 a) \<le> a" and hi: "a < pow2 (floor_log2 a + 1)" by simp_all
  have "\<not> floor_log2 a < e"
  proof
    assume "floor_log2 a < e"
    then have "pow2 (floor_log2 a + 1) \<le> pow2 e" by (intro pow2_mono) simp
    with hi assms(1) show False by simp
  qed
  moreover have "\<not> e < floor_log2 a"
  proof
    assume "e < floor_log2 a"
    then have "pow2 (e + 1) \<le> pow2 (floor_log2 a)" by (intro pow2_mono) simp
    with lo assms(2) show False by simp
  qed
  ultimately show ?thesis by simp
qed

lemma round_double_eq:
  assumes "pow2 e \<le> x" and "x < pow2 (e + 1)"
  shows "round_double x = of_int (round_half_even (x / pow2 (e - 52))) * pow2 (e - 52)"
proof -
  have pos: "0 < x" using assms(1) pow2_pos [of e] by simp
  then show ?thesis
    by (simp add: round_double_def Let_def floor_log2_eq [OF assms])
qed

lemma round_half_even_29: "round_half_even (29 / 100 / pow2 (- 54)) = 5224175567749775"
  by code_simp

lemma py_truediv_29_100: "py_truediv 29 100 = 5224175567749775 / 18014398509481984"
proof -
  have "round_double (29 / 100) =
          of_int (round_half_even (29 / 100 / pow2 (- 2 - 52))) * pow2 (- 2 - 52)"
    by (rule round_double_eq) (simp_all add: pow2_def)
  moreover have "(- 2 - 52 :: int) = - 54" by simp
  ultimately have "round_double (29 / 100) = of_int 5224175567749775 * pow2 (- 54)"
    by (simp only: round_half_even_29)
  then show ?thesis
    by (simp add: py_truediv_def pow2_def)
qed

lemma round_half_even_29_100:
  "round_half_even (5224175567749775 / 18014398509481984 * 100 / pow2 (- 48)) = 8162774324609023"
  by code_simp

lemma py_float_mul_29_100:
  "py_float_mul (5224175567749775 / 18014398509481984) 100 = 8162774324609023 / 281474976710656"
proof -
  have "round_double (5224175567749775 / 18014398509481984 * 100) =
          of_int (round_half_even (5224175567749775 / 18014398509481984 * 100 / pow2 (4 - 52)))
          * pow2 (4 - 52)"
    by (rule round_double_eq) (simp_all add: pow2_def)
  moreover have "(4 - 52 :: int) = - 48" by simp
  ultimately have "round_double (5224175567749775 / 18014398509481984 * 100) =
      of_int 8162774324609023 * pow2 (- 48)"
    by (simp only: round_half_even_29_100)
  then show ?thesis
    by (simp add: py_float_mul_def pow2_def)
qed

lemma progress_percent_29_100: "progress_percent 29 100 = 28"
proof -
  have "\<lfloor>8162774324609023 / 281474976710656 :: rat\<rfloor> = 28"
    by (simp add: floor_eq_iff)
  then show ?thesis
    by (simp add: progress_percent_def py_truediv_29_100 py_float_mul_29_100 py_int_of_float_def)
qed

lemma round_half_even_int: "round_half_even (of_int n) = n"
  by (simp add: round_half_even_def)

lemma round_double_1: "round_double 1 = 1"
proof -
  have "round_double 1 = of_int (round_half_even (1 / pow2 (0 - 52))) * pow2 (0 - 52)"
    by (rule round_double_eq) (simp_all add: pow2_def)
  moreover have "(1::rat) / pow2 (0 - 52) = of_int (2 ^ 52)"
    by (simp add: pow2_def)
  ultimately show ?thesis
    by (simp only: round_half_even_int) (simp add: pow2_def)
qed

lemma round_double_100: "round_double 100 = 100"
proof -
  have "round_double 100 = of_int (round_half_even (100 / pow2 (6 - 52))) * pow2 (6 - 52)"
    by (rule round_double_eq) (simp_all add: pow2_def)
  moreover have "(100::rat) / pow2 (6 - 52) = of_int (100 * 2 ^ 46)"
    by (simp add: pow2_def)
  ultimately show ?thesis
    by (simp only: round_half_even_int) (simp add: pow2_def)
qed

lemma progress_percent_ends:
  "progress_percent c 0 = 0"
  "0 < t \<Longrightarrow> progress_percent 0 t = 0"
  "0 < t \<Longrightarrow> progress_percent t t = 100"
  by (simp_all add: progress_percent_def py_truediv_def py_float_mul_def py_int_of_float_def
      round_double_1 round_double_100) (simp add: round_double_def)

text \<open>
  Claim C8. The progress after \<open>update_progress\<close> is the truncation of a binary64 product of
  a binary64 quotient, not the floor of the exact percentage: for the 29th of 100 images
  the quotient 29/100 rounds below 0.29, its product with 100 rounds to
  28.999999999999996, and the progress is 28, while \<open>\<lfloor>29 / 100 * 100\<rfloor> = 29\<close>.
\<close>

theorem update_progress_29_of_100:
  "map_option progress
     (update_progress (snd (create_job JobStore_init ''j2'' 100 0)) ''j2'' 29 0 ''j2'') = Some 28
   \<and> map_option status
     (update_progress (snd (create_job JobStore_init ''j2'' 100 0)) ''j2'' 29 0 ''j2'')
       = Some ''processing''
   \<and> \<lfloor>(29 :: rat) / 100 * 100\<rfloor> = 29"
  by (simp add: update_progress_def create_job_def JobStatus_init_def progress_percent_29_100)

end
